theory Spec2Isabelle
  imports Main "HOL-Library.Finite_Map"
begin

section \<open>The feature set (pkg/features/features.go)\<close>

text \<open>
  A Go \<^verbatim>\<open>error\<close> is an interface value carrying a message; the model keeps the message.
  \<^verbatim>\<open>fmt.Errorf("feature %s does not exist", name)\<close> is the message with the name spliced in.
\<close>

datatype error = Err string

type_synonym bytes = string

record Feature =
  Name :: string
  Description :: string
  Enabled :: bool

text \<open>
  The Go map is a finite map from names to features. The map is allocated, as
  \<^verbatim>\<open>NewFeatureSet\<close> allocates it with \<^verbatim>\<open>make\<close>; a nil map reads like the empty map in
  \<^verbatim>\<open>IsEnabled\<close> and \<^verbatim>\<open>EnableFeature\<close>, and only \<^verbatim>\<open>AddFeature\<close> would panic on it.
\<close>

record FeatureSet =
  Features :: "(string, Feature) fmap"
  everythingOn :: bool

definition NewFeatureSet :: FeatureSet where
  "NewFeatureSet = \<lparr>Features = fmempty, everythingOn = False\<rparr>"

text \<open>The methods mutate the receiver; the model returns the updated set.\<close>

definition AddFeature :: "FeatureSet \<Rightarrow> string \<Rightarrow> string \<Rightarrow> bool \<Rightarrow> FeatureSet" where
  "AddFeature fs name description enabled =
     fs\<lparr>Features := fmupd name
           \<lparr>Name = name, Description = description, Enabled = enabled\<rparr> (Features fs)\<rparr>"

text \<open>\<^verbatim>\<open>IsEnabled\<close> has no assignment to the receiver and no error result: a function to \<open>bool\<close>.\<close>

definition IsEnabled :: "FeatureSet \<Rightarrow> string \<Rightarrow> bool" where
  "IsEnabled fs name =
     (if everythingOn fs then True
      else case fmlookup (Features fs) name of
             None \<Rightarrow> False
           | Some feature \<Rightarrow> Enabled feature)"

text \<open>
  \<^verbatim>\<open>EnableFeature\<close> returns the error (\<open>None\<close> is Go's \<^verbatim>\<open>nil\<close>) together with the set as
  the call leaves it, since a caller can observe the set after a failed call.
\<close>

definition EnableFeature :: "FeatureSet \<Rightarrow> string \<Rightarrow> error option \<times> FeatureSet" where
  "EnableFeature fs name =
     (if name = ''everything'' then (None, fs\<lparr>everythingOn := True\<rparr>)
      else case fmlookup (Features fs) name of
             None \<Rightarrow> (Some (Err (''feature '' @ name @ '' does not exist'')), fs)
           | Some feature \<Rightarrow>
               (None, fs\<lparr>Features := fmupd name (feature\<lparr>Enabled := True\<rparr>) (Features fs)\<rparr>))"

fun EnableFeatures :: "FeatureSet \<Rightarrow> string list \<Rightarrow> error option \<times> FeatureSet" where
  "EnableFeatures fs [] = (None, fs)"
| "EnableFeatures fs (name # names) =
     (case EnableFeature fs name of
        (Some err, fs') \<Rightarrow> (Some err, fs')
      | (None, fs') \<Rightarrow> EnableFeatures fs' names)"

subsection \<open>Sequences of calls made by a client of the package\<close>

datatype call =
    CallAddFeature string string bool
  | CallEnableFeature string
  | CallEnableFeatures "string list"

fun do_call :: "FeatureSet \<Rightarrow> call \<Rightarrow> FeatureSet" where
  "do_call fs (CallAddFeature name description enabled) = AddFeature fs name description enabled"
| "do_call fs (CallEnableFeature name) = snd (EnableFeature fs name)"
| "do_call fs (CallEnableFeatures names) = snd (EnableFeatures fs names)"

definition do_calls :: "FeatureSet \<Rightarrow> call list \<Rightarrow> FeatureSet" where
  "do_calls fs cs = foldl do_call fs cs"

text \<open>The names a call registers, and the names it passes to \<^verbatim>\<open>EnableFeature\<close>.\<close>

fun registered_by :: "call \<Rightarrow> string list" where
  "registered_by (CallAddFeature name description enabled) = [name]"
| "registered_by (CallEnableFeature name) = []"
| "registered_by (CallEnableFeatures names) = []"

fun enabled_by :: "call \<Rightarrow> string list" where
  "enabled_by (CallAddFeature name description enabled) = []"
| "enabled_by (CallEnableFeature name) = [name]"
| "enabled_by (CallEnableFeatures names) = names"

text \<open>The invariant of claim C9: every entry is stored under its own name.\<close>

definition names_match :: "FeatureSet \<Rightarrow> bool" where
  "names_match fs =
     fBall (fmdom (Features fs))
       (\<lambda>k. map_option Name (fmlookup (Features fs) k) = Some k)"

text \<open>
  The specification's wording of the query, for comparison with \<open>IsEnabled\<close>: true if the
  override is set, otherwise the stored value, or false if the name was never registered.
\<close>

definition isEnabled_spec :: "bool \<Rightarrow> bool option \<Rightarrow> bool" where
  "isEnabled_spec override stored =
     (override \<or> (case stored of Some enabled \<Rightarrow> enabled | None \<Rightarrow> False))"

section \<open>Resolving the feature list (initFeatures)\<close>

text \<open>
  \<^verbatim>\<open>os.Getenv\<close> returns the empty string for a variable that is not set. The environment
  is a map from variable names to values.
\<close>

definition Getenv :: "(string \<rightharpoonup> string) \<Rightarrow> string \<Rightarrow> string" where
  "Getenv env key = (case env key of None \<Rightarrow> [] | Some v \<Rightarrow> v)"

text \<open>
  \<^verbatim>\<open>strings.Split(s, ",")\<close> of the Go standard library, for the one-byte separator the call
  site passes: the pieces between consecutive separators, one more piece than there are
  separators.
\<close>

function Split :: "string \<Rightarrow> char \<Rightarrow> string list" where
  "Split s sep =
     (case dropWhile (\<lambda>c. c \<noteq> sep) s of
        [] \<Rightarrow> [s]
      | _ # rest \<Rightarrow> takeWhile (\<lambda>c. c \<noteq> sep) s # Split rest sep)"
  by pat_completeness auto
termination
proof (relation "measure (\<lambda>(s, sep). length s)")
  show "wf (measure (\<lambda>(s, sep). length s))" by simp
next
  fix s :: string and sep :: char and x21 :: char and rest :: string
  assume "dropWhile (\<lambda>c. c \<noteq> sep) s = x21 # rest"
  then have "length rest < length (dropWhile (\<lambda>c. c \<noteq> sep) s)" by simp
  also have "\<dots> \<le> length s" by (rule length_dropWhile_le)
  finally show "((rest, sep), (s, sep)) \<in> measure (\<lambda>(s, sep). length s)" by simp
qed

text \<open>
  \<^verbatim>\<open>strings.TrimSpace\<close> of the Go standard library removes the leading and the trailing
  white space, as Unicode defines it, from a UTF-8 string. The white-space code points are
  U+0009..U+000D, U+0020, U+0085, U+00A0, U+1680, U+2000..U+200A, U+2028, U+2029, U+202F,
  U+205F and U+3000; the list holds their UTF-8 encodings.
\<close>

definition spaceRunes :: "string list" where
  "spaceRunes =
     [[CHR 0x09], [CHR 0x0A], [CHR 0x0B], [CHR 0x0C], [CHR 0x0D], [CHR 0x20],
      [CHR 0xC2, CHR 0x85], [CHR 0xC2, CHR 0xA0],
      [CHR 0xE1, CHR 0x9A, CHR 0x80],
      [CHR 0xE2, CHR 0x80, CHR 0x80], [CHR 0xE2, CHR 0x80, CHR 0x81],
      [CHR 0xE2, CHR 0x80, CHR 0x82], [CHR 0xE2, CHR 0x80, CHR 0x83],
      [CHR 0xE2, CHR 0x80, CHR 0x84], [CHR 0xE2, CHR 0x80, CHR 0x85],
      [CHR 0xE2, CHR 0x80, CHR 0x86], [CHR 0xE2, CHR 0x80, CHR 0x87],
      [CHR 0xE2, CHR 0x80, CHR 0x88], [CHR 0xE2, CHR 0x80, CHR 0x89],
      [CHR 0xE2, CHR 0x80, CHR 0x8A],
      [CHR 0xE2, CHR 0x80, CHR 0xA8], [CHR 0xE2, CHR 0x80, CHR 0xA9],
      [CHR 0xE2, CHR 0x80, CHR 0xAF],
      [CHR 0xE2, CHR 0x81, CHR 0x9F],
      [CHR 0xE3, CHR 0x80, CHR 0x80]]"

text \<open>The width in bytes of the white-space rune a string starts with; 0 if there is none.\<close>

definition leadingSpace :: "string \<Rightarrow> nat" where
  "leadingSpace s =
     (case find (\<lambda>w. take (length w) s = w) spaceRunes of
        None \<Rightarrow> 0
      | Some w \<Rightarrow> length w)"

text \<open>The width in bytes of the white-space rune a string ends with; 0 if there is none.\<close>

definition trailingSpace :: "string \<Rightarrow> nat" where
  "trailingSpace s =
     (case find (\<lambda>w. length w \<le> length s \<and> drop (length s - length w) s = w) spaceRunes of
        None \<Rightarrow> 0
      | Some w \<Rightarrow> length w)"

fun TrimLeftSpace :: "string \<Rightarrow> string" where
  "TrimLeftSpace [] = []"
| "TrimLeftSpace (c # cs) =
     (if leadingSpace (c # cs) = 0 then c # cs
      else TrimLeftSpace (drop (leadingSpace (c # cs) - 1) cs))"

function TrimRightSpace :: "string \<Rightarrow> string" where
  "TrimRightSpace s =
     (if s = [] \<or> trailingSpace s = 0 then s
      else TrimRightSpace (take (length s - trailingSpace s) s))"
  by pat_completeness auto
termination
  by (relation "measure length") auto

definition TrimSpace :: "string \<Rightarrow> string" where
  "TrimSpace s = TrimRightSpace (TrimLeftSpace s)"

text \<open>The six \<^verbatim>\<open>AddFeature\<close> calls that open \<^verbatim>\<open>initFeatures\<close>.\<close>

definition catalog :: FeatureSet where
  "catalog =
     (let fs = NewFeatureSet;
          fs = AddFeature fs ''repos'' ''Repository related tools'' False;
          fs = AddFeature fs ''issues'' ''Issues related tools'' False;
          fs = AddFeature fs ''search'' ''Search related tools'' False;
          fs = AddFeature fs ''pull_requests'' ''Pull request related tools'' False;
          fs = AddFeature fs ''code_security'' ''Code security related tools'' False;
          fs = AddFeature fs ''experiments''
                 ''Experimental features that are not considered stable yet'' False
      in fs)"

text \<open>
  The value of \<^verbatim>\<open>passedFeatures\<close> when \<^verbatim>\<open>initFeatures\<close> reaches \<^verbatim>\<open>EnableFeatures\<close>: the loop
  appends the trimmed pieces to a list that starts empty.
\<close>

definition resolveFeatures :: "(string \<rightharpoonup> string) \<Rightarrow> string list \<Rightarrow> string list" where
  "resolveFeatures env passedFeatures =
     (let envFeats = Getenv env ''GITHUB_FEATURES''
      in if envFeats \<noteq> []
         then foldl (\<lambda>passed feature. passed @ [TrimSpace feature]) []
                (Split envFeats CHR '','')
         else passedFeatures)"

definition initFeatures :: "(string \<rightharpoonup> string) \<Rightarrow> string list \<Rightarrow> error + FeatureSet" where
  "initFeatures env passedFeatures =
     (case EnableFeatures catalog (resolveFeatures env passedFeatures) of
        (Some err, fs) \<Rightarrow> Inl err
      | (None, fs) \<Rightarrow> Inr fs)"

section \<open>The output decorators (JSONPrettyPrintWriter, runStdioServer)\<close>

text \<open>
  What the writers act on: the writes that reached the raw output stream and the entries
  mirrored to the log sink, each in order. An \<^verbatim>\<open>io.Writer\<close> takes the bytes and returns the
  count and the error.
\<close>

record io_state =
  written :: "bytes list"
  transcript :: "bytes list"

type_synonym writer = "bytes \<Rightarrow> io_state \<Rightarrow> (nat \<times> error option) \<times> io_state"

text \<open>
  \<^verbatim>\<open>json.Indent(&buf, p, "", "\t")\<close> belongs to the Go standard library and is a parameter
  of the model: it yields the error for bytes that are not parseable as JSON and the
  indented bytes otherwise.
\<close>

definition JSONPrettyPrintWriter_Write :: "(bytes \<Rightarrow> error + bytes) \<Rightarrow> writer \<Rightarrow> writer" where
  "JSONPrettyPrintWriter_Write Indent w p st =
     (case Indent p of
        Inl err \<Rightarrow> ((0, Some err), st)
      | Inr prettyJSON \<Rightarrow> w prettyJSON st)"

text \<open>
  Modelled from the spec: the \<^verbatim>\<open>Write\<close> method of the transcript-logging decorator that
  \<^verbatim>\<open>iolog.NewIOLogger\<close> builds (package pkg/log, not among the sources). The specification
  says it "mirrors every byte read/written to the log sink before passing it through
  unchanged".
\<close>

definition IOLogger_Write :: "writer \<Rightarrow> writer" where
  "IOLogger_Write w p st = w p (st\<lparr>transcript := transcript st @ [p]\<rparr>)"

text \<open>The raw stream: a write to \<^verbatim>\<open>os.Stdout\<close> that succeeds.\<close>

definition Stdout_Write :: writer where
  "Stdout_Write p st = ((length p, None), st\<lparr>written := written st @ [p]\<rparr>)"

text \<open>
  The writer \<^verbatim>\<open>out\<close> that the goroutine of \<^verbatim>\<open>runStdioServer\<close> hands to \<^verbatim>\<open>Listen\<close>, from the
  two switches of the configuration and the raw stream.
\<close>

definition stdioOut ::
  "(bytes \<Rightarrow> error + bytes) \<Rightarrow> bool \<Rightarrow> bool \<Rightarrow> writer \<Rightarrow> writer" where
  "stdioOut Indent logCommands prettyPrintJSON raw =
     (let out = raw;
          out = (if logCommands then IOLogger_Write out else out);
          out = (if prettyPrintJSON then JSONPrettyPrintWriter_Write Indent out else out)
      in out)"

text \<open>
  An instance of the parameter for the closed theorems below. It agrees with
  \<^verbatim>\<open>json.Indent\<close> on the three inputs they use: \<^verbatim>\<open>[1,2]\<close> is spread over four lines with
  tab indentation, \<^verbatim>\<open>{}\<close> stays as it is, and the unfinished \<^verbatim>\<open>{\<close> is rejected. It stands
  for \<^verbatim>\<open>json.Indent\<close> at these inputs only.
\<close>

definition Indent_sample :: "bytes \<Rightarrow> error + bytes" where
  "Indent_sample src =
     (if src = ''[1,2]''
      then Inr [CHR ''['', CHR 0x0A, CHR 0x09, CHR ''1'', CHR '','',
                CHR 0x0A, CHR 0x09, CHR ''2'', CHR 0x0A, CHR '']'']
      else if src = ''{}'' then Inr ''{}''
      else Inl (Err ''unexpected end of JSON input''))"

section \<open>The process (stdioCmd, runStdioServer, main)\<close>

text \<open>
  What the process leaves behind: the lines it printed on standard output and on standard
  error, the entries written to the log file, and the exit status once it has exited. The
  protocol traffic on standard output is the protocol server's and is not part of this
  record.
\<close>

record process =
  stdout :: "string list"
  stderr :: "string list"
  logfile :: "string list"
  status :: "nat option"

text \<open>A step either ends the process (\<^verbatim>\<open>os.Exit\<close>) or returns a value to its caller.\<close>

datatype 'a flow = Exit process | Return 'a process

text \<open>The values of the command-line flags that viper hands to the stdio command.\<close>

record flags =
  log_file :: string
  read_only :: bool
  export_translations :: bool
  pretty_print_json :: bool
  features_flag :: "string list"
  enable_command_logging :: bool
  gh_host :: string

text \<open>
  What the surroundings decide: the environment variables, whether the log file can be
  opened, whether the client accepts the enterprise host, and which of the two events the
  \<^verbatim>\<open>select\<close> of \<^verbatim>\<open>runStdioServer\<close> sees first.
\<close>

datatype serve_end = SignalFirst | ListenReturned "error option"

record outside =
  environ :: "string \<rightharpoonup> string"
  OpenFile :: "string \<Rightarrow> error option"
  WithEnterpriseURLs :: "string \<Rightarrow> error option"
  served :: serve_end

text \<open>A logrus logger writes to standard error unless \<^verbatim>\<open>initLogger\<close> set a file.\<close>

datatype logger = LogStderr | LogFile string

definition message :: "error \<Rightarrow> string" where
  "message e = (case e of Err m \<Rightarrow> m)"

definition initLogger :: "outside \<Rightarrow> string \<Rightarrow> error + logger" where
  "initLogger ext outPath =
     (if outPath = [] then Inr LogStderr
      else case OpenFile ext outPath of
             Some err \<Rightarrow> Inl (Err (''failed to open log file: '' @ message err))
           | None \<Rightarrow> Inr (LogFile outPath))"

definition logger_print :: "logger \<Rightarrow> string \<Rightarrow> process \<Rightarrow> process" where
  "logger_print l line p =
     (case l of
        LogStderr \<Rightarrow> p\<lparr>stderr := stderr p @ [line]\<rparr>
      | LogFile path \<Rightarrow> p\<lparr>logfile := logfile p @ [line]\<rparr>)"

text \<open>
  \<^verbatim>\<open>Fatal\<close> of a logrus logger writes the entry to the logger's output and calls
  \<^verbatim>\<open>os.Exit(1)\<close>. \<^verbatim>\<open>log.Fatal\<close> of the standard library prints its operands with the
  standard logger, whose output is standard error (the program never redirects it), and
  calls \<^verbatim>\<open>os.Exit(1)\<close>.
\<close>

definition logger_Fatal :: "logger \<Rightarrow> string \<Rightarrow> process \<Rightarrow> process" where
  "logger_Fatal l line p = (logger_print l line p)\<lparr>status := Some 1\<rparr>"

definition stdlog_Fatal :: "string \<Rightarrow> error \<Rightarrow> process \<Rightarrow> process" where
  "stdlog_Fatal line err p = p\<lparr>stderr := stderr p @ [line @ message err], status := Some 1\<rparr>"

record runConfig =
  readOnly :: bool
  cfg_logger :: logger
  logCommands :: bool
  exportTranslations :: bool
  prettyPrintJSON :: bool
  cfg_features :: FeatureSet

definition runStdioServer :: "outside \<Rightarrow> flags \<Rightarrow> runConfig \<Rightarrow> process \<Rightarrow> (error option) flow" where
  "runStdioServer ext fl cfg p =
     (let token = Getenv (environ ext) ''GITHUB_PERSONAL_ACCESS_TOKEN''
      in if token = []
         then Exit (logger_Fatal (cfg_logger cfg) ''GITHUB_PERSONAL_ACCESS_TOKEN not set'' p)
         else
           (let host = Getenv (environ ext) ''GH_HOST'';
                host = (if host = [] then gh_host fl else host);
                clientErr = (if host \<noteq> [] then WithEnterpriseURLs ext host else None)
            in (case clientErr of
                  Some err \<Rightarrow>
                    Return (Some (Err (''failed to create GitHub client with host: ''
                                         @ message err))) p
                | None \<Rightarrow>
                    (let p = p\<lparr>stderr := stderr p @ [''GitHub MCP Server running on stdio'']\<rparr>
                     in (case served ext of
                           SignalFirst \<Rightarrow>
                             Return None
                               (logger_print (cfg_logger cfg) ''shutting down server...'' p)
                         | ListenReturned None \<Rightarrow> Return None p
                         | ListenReturned (Some err) \<Rightarrow>
                             Return (Some (Err (''error running server: '' @ message err))) p)))))"

definition stdioCmd_Run :: "outside \<Rightarrow> flags \<Rightarrow> process \<Rightarrow> unit flow" where
  "stdioCmd_Run ext fl p =
     (case initLogger ext (log_file fl) of
        Inl err \<Rightarrow> Exit (stdlog_Fatal ''Failed to initialize logger:'' err p)
      | Inr lg \<Rightarrow>
          (case initFeatures (environ ext) (features_flag fl) of
             Inl err \<Rightarrow> Exit (stdlog_Fatal ''Failed to initialize features:'' err p)
           | Inr fs \<Rightarrow>
               (let cfg = \<lparr>readOnly = read_only fl, cfg_logger = lg,
                           logCommands = enable_command_logging fl,
                           exportTranslations = export_translations fl,
                           prettyPrintJSON = pretty_print_json fl,
                           cfg_features = fs\<rparr>
                in (case runStdioServer ext fl cfg p of
                      Exit p' \<Rightarrow> Exit p'
                    | Return None p' \<Rightarrow> Return () p'
                    | Return (Some err) p' \<Rightarrow>
                        Exit (stdlog_Fatal ''failed to run stdio server:'' err p')))))"

text \<open>
  \<^verbatim>\<open>rootCmd.Execute\<close> is cobra's: it returns an error when the command line cannot be
  dispatched, runs the stdio command when that is the command named, and otherwise (help,
  version) returns \<^verbatim>\<open>nil\<close> without running it. What cobra itself prints is not modelled.
\<close>

datatype invocation = BadCommandLine error | StdioCommand | OtherCommand

definition rootCmd_Execute :: "invocation \<Rightarrow> outside \<Rightarrow> flags \<Rightarrow> process \<Rightarrow> (error option) flow" where
  "rootCmd_Execute how ext fl p =
     (case how of
        BadCommandLine err \<Rightarrow> Return (Some err) p
      | OtherCommand \<Rightarrow> Return None p
      | StdioCommand \<Rightarrow>
          (case stdioCmd_Run ext fl p of
             Exit p' \<Rightarrow> Exit p'
           | Return u p' \<Rightarrow> Return None p'))"

text \<open>
  \<^verbatim>\<open>main\<close>: an error from \<^verbatim>\<open>Execute\<close> is printed with \<^verbatim>\<open>fmt.Println\<close> (standard output)
  before \<^verbatim>\<open>os.Exit(1)\<close>; returning from \<^verbatim>\<open>main\<close> ends the process with status 0.
\<close>

definition main :: "invocation \<Rightarrow> outside \<Rightarrow> flags \<Rightarrow> process \<Rightarrow> process" where
  "main how ext fl p =
     (case rootCmd_Execute how ext fl p of
        Exit p' \<Rightarrow> p'
      | Return (Some err) p' \<Rightarrow> p'\<lparr>stdout := stdout p' @ [message err], status := Some 1\<rparr>
      | Return None p' \<Rightarrow> p'\<lparr>status := Some 0\<rparr>)"

definition started :: process where
  "started = \<lparr>stdout = [], stderr = [], logfile = [], status = None\<rparr>"

section \<open>Concrete inputs\<close>

text \<open>The two features of \<^verbatim>\<open>TestEnableFeatures\<close>, both registered disabled.\<close>

definition two_features :: FeatureSet where
  "two_features =
     AddFeature (AddFeature NewFeatureSet ''feature1'' ''Feature 1'' False)
       ''feature2'' ''Feature 2'' False"

text \<open>A set in which the name of the sentinel was registered as a feature.\<close>

definition sentinel_registered :: FeatureSet where
  "sentinel_registered = AddFeature NewFeatureSet ''everything'' ''All tools'' False"

text \<open>An environment that asks for a feature the catalog does not have.\<close>

definition bogus_outside :: outside where
  "bogus_outside =
     \<lparr>environ = [''GITHUB_FEATURES'' \<mapsto> ''bogus'', ''GITHUB_PERSONAL_ACCESS_TOKEN'' \<mapsto> ''t''],
      OpenFile = (\<lambda>path. None),
      WithEnterpriseURLs = (\<lambda>host. None),
      served = ListenReturned None\<rparr>"

definition good_outside :: outside where
  "good_outside =
     \<lparr>environ = [''GITHUB_PERSONAL_ACCESS_TOKEN'' \<mapsto> ''t''],
      OpenFile = (\<lambda>path. None),
      WithEnterpriseURLs = (\<lambda>host. None),
      served = SignalFirst\<rparr>"

definition default_flags :: flags where
  "default_flags =
     \<lparr>log_file = [], read_only = False, export_translations = False,
      pretty_print_json = False,
      features_flag = [''repos'', ''issues'', ''pull_requests'', ''search''],
      enable_command_logging = False, gh_host = []\<rparr>"

definition idle :: io_state where
  "idle = \<lparr>written = [], transcript = []\<rparr>"

section \<open>The override\<close>

lemma EnableFeature_everythingOn_mono:
  "everythingOn fs \<Longrightarrow> everythingOn (snd (EnableFeature fs name))"
  by (simp add: EnableFeature_def split: option.splits)

lemma EnableFeatures_everythingOn_mono:
  "everythingOn fs \<Longrightarrow> everythingOn (snd (EnableFeatures fs names))"
proof (induction names arbitrary: fs)
  case Nil
  then show ?case by simp
next
  case (Cons name names)
  obtain e fs' where step: "EnableFeature fs name = (e, fs')" by (cases "EnableFeature fs name")
  from Cons.prems have on: "everythingOn fs'"
    using EnableFeature_everythingOn_mono [of fs name] step by simp
  show ?case
  proof (cases e)
    case None
    then show ?thesis using step Cons.IH [OF on] by simp
  next
    case (Some err)
    then show ?thesis using step on by simp
  qed
qed

lemma do_call_everythingOn_mono: "everythingOn fs \<Longrightarrow> everythingOn (do_call fs c)"
  by (cases c)
     (simp_all add: AddFeature_def EnableFeature_everythingOn_mono EnableFeatures_everythingOn_mono)

lemma do_calls_everythingOn_mono: "everythingOn fs \<Longrightarrow> everythingOn (do_calls fs cs)"
  unfolding do_calls_def
  by (induction cs arbitrary: fs) (simp_all add: do_call_everythingOn_mono)

text \<open>
  Claim C1. \<^verbatim>\<open>EnableFeature("everything")\<close> succeeds whatever the table holds and changes
  nothing but the override; from then on \<open>IsEnabled\<close> is true of every name, registered or
  not, with a stored bit that is false or not, also after any later calls on the set.
\<close>

theorem EnableFeature_everything:
  "EnableFeature fs ''everything'' = (None, fs\<lparr>everythingOn := True\<rparr>)
   \<and> fst (EnableFeature (fs\<lparr>Features := table\<rparr>) ''everything'') = None
   \<and> Features (snd (EnableFeature fs ''everything'')) = Features fs
   \<and> IsEnabled (snd (EnableFeature fs ''everything'')) x
   \<and> IsEnabled (do_calls (snd (EnableFeature fs ''everything'')) later) x"
proof -
  have step: "EnableFeature fs ''everything'' = (None, fs\<lparr>everythingOn := True\<rparr>)"
    by (simp add: EnableFeature_def)
  have any: "fst (EnableFeature (fs\<lparr>Features := table\<rparr>) ''everything'') = None"
    by (simp add: EnableFeature_def)
  have on: "everythingOn (snd (EnableFeature fs ''everything''))"
    using step by simp
  have now: "IsEnabled (snd (EnableFeature fs ''everything'')) x"
    using on by (simp add: IsEnabled_def)
  have after: "IsEnabled (do_calls (snd (EnableFeature fs ''everything'')) later) x"
    using do_calls_everythingOn_mono [OF on, of later] by (simp add: IsEnabled_def)
  from step any now after show ?thesis by simp
qed

theorem EnableFeature_everything_witness:
  "IsEnabled (snd (EnableFeature two_features ''everything'')) ''never-registered''
   \<and> IsEnabled (snd (EnableFeature two_features ''everything'')) ''feature1''
   \<and> map_option Enabled
        (fmlookup (Features (snd (EnableFeature two_features ''everything''))) ''feature1'')
       = Some False
   \<and> IsEnabled (do_calls (snd (EnableFeature two_features ''everything''))
        [CallAddFeature ''late'' ''Registered later'' False, CallEnableFeature ''missing''])
        ''late''"
proof -
  note unregistered =
    EnableFeature_everything [of two_features "Features two_features" "''never-registered''" "[]"]
  note disabled =
    EnableFeature_everything [of two_features "Features two_features" "''feature1''" "[]"]
  note afterwards =
    EnableFeature_everything [of two_features "Features two_features" "''late''"
      "[CallAddFeature ''late'' ''Registered later'' False, CallEnableFeature ''missing'']"]
  have stored:
    "map_option Enabled
       (fmlookup (Features (snd (EnableFeature two_features ''everything''))) ''feature1'')
     = Some False"
    by (simp add: EnableFeature_def two_features_def AddFeature_def NewFeatureSet_def)
  from unregistered disabled afterwards stored show ?thesis by blast
qed

section \<open>Enabling features\<close>

subsection \<open>What a single enable changes\<close>

lemma EnableFeature_dom:
  "fmdom (Features (snd (EnableFeature fs name))) = fmdom (Features fs)"
proof (cases "fmlookup (Features fs) name")
  case None
  then show ?thesis by (simp add: EnableFeature_def)
next
  case (Some f)
  then have "name |\<in>| fmdom (Features fs)" by (rule fmdomI)
  with Some show ?thesis by (auto simp: EnableFeature_def)
qed

lemma EnableFeature_other:
  "other \<noteq> name \<Longrightarrow>
   fmlookup (Features (snd (EnableFeature fs name))) other = fmlookup (Features fs) other"
  by (simp add: EnableFeature_def split: option.splits)

lemma EnableFeature_override:
  "everythingOn (snd (EnableFeature fs name)) = (everythingOn fs \<or> name = ''everything'')"
  by (simp add: EnableFeature_def split: option.splits)

lemma EnableFeature_valid:
  "name = ''everything'' \<or> name |\<in>| fmdom (Features fs) \<Longrightarrow> fst (EnableFeature fs name) = None"
  by (auto simp: EnableFeature_def fmlookup_dom_iff split: option.splits)

lemma EnableFeature_enables:
  "fst (EnableFeature fs name) = None \<Longrightarrow> IsEnabled (snd (EnableFeature fs name)) name"
  by (simp add: EnableFeature_def IsEnabled_def split: option.splits if_splits)

lemma EnableFeature_keeps:
  "IsEnabled fs n \<Longrightarrow> IsEnabled (snd (EnableFeature fs name)) n"
  by (auto simp: EnableFeature_def IsEnabled_def split: option.splits if_splits)

lemma EnableFeature_names_match:
  "names_match fs \<Longrightarrow> names_match (snd (EnableFeature fs name))"
proof (cases "name \<noteq> ''everything'' \<and> fmlookup (Features fs) name \<noteq> None")
  case False
  assume "names_match fs"
  with False show ?thesis by (auto simp: EnableFeature_def names_match_def)
next
  case True
  assume inv: "names_match fs"
  from True obtain f where f: "fmlookup (Features fs) name = Some f" by auto
  then have "name |\<in>| fmdom (Features fs)" by (rule fmdomI)
  with inv f have "Name f = name" by (auto simp: names_match_def)
  with True f inv show ?thesis by (auto simp: EnableFeature_def names_match_def)
qed

subsection \<open>What the loop changes\<close>

lemma EnableFeatures_step:
  "EnableFeatures fs (name # names) =
     (if fst (EnableFeature fs name) = None
      then EnableFeatures (snd (EnableFeature fs name)) names
      else EnableFeature fs name)"
  by (cases "EnableFeature fs name") (auto split: option.splits)

lemma EnableFeatures_dom:
  "fmdom (Features (snd (EnableFeatures fs names))) = fmdom (Features fs)"
  by (induction names arbitrary: fs) (simp_all del: EnableFeatures.simps(2) add: EnableFeatures_step EnableFeature_dom)

lemma EnableFeatures_other:
  "other \<notin> set names \<Longrightarrow>
   fmlookup (Features (snd (EnableFeatures fs names))) other = fmlookup (Features fs) other"
  by (induction names arbitrary: fs) (simp_all del: EnableFeatures.simps(2) add: EnableFeatures_step EnableFeature_other)

lemma EnableFeatures_override_kept:
  "''everything'' \<notin> set names \<Longrightarrow>
   everythingOn (snd (EnableFeatures fs names)) = everythingOn fs"
  by (induction names arbitrary: fs) (auto simp del: EnableFeatures.simps(2) simp add: EnableFeatures_step EnableFeature_override)

lemma EnableFeatures_keeps:
  "IsEnabled fs n \<Longrightarrow> IsEnabled (snd (EnableFeatures fs names)) n"
  by (induction names arbitrary: fs) (simp_all del: EnableFeatures.simps(2) add: EnableFeatures_step EnableFeature_keeps)

lemma EnableFeatures_names_match:
  "names_match fs \<Longrightarrow> names_match (snd (EnableFeatures fs names))"
  by (induction names arbitrary: fs) (simp_all del: EnableFeatures.simps(2) add: EnableFeatures_step EnableFeature_names_match)

lemma EnableFeatures_valid:
  "\<forall>n \<in> set names. n = ''everything'' \<or> n |\<in>| fmdom (Features fs) \<Longrightarrow>
   fst (EnableFeatures fs names) = None"
proof (induction names arbitrary: fs)
  case Nil
  then show ?case by simp
next
  case (Cons name names)
  then have ok: "fst (EnableFeature fs name) = None" by (simp add: EnableFeature_valid)
  from Cons.prems
  have "\<forall>n \<in> set names. n = ''everything'' \<or> n |\<in>| fmdom (Features (snd (EnableFeature fs name)))"
    by (simp add: EnableFeature_dom)
  then have "fst (EnableFeatures (snd (EnableFeature fs name)) names) = None" by (rule Cons.IH)
  with ok show ?case by (simp del: EnableFeatures.simps(2) add: EnableFeatures_step)
qed

lemma EnableFeatures_enables:
  "fst (EnableFeatures fs names) = None \<Longrightarrow> n \<in> set names \<Longrightarrow>
   IsEnabled (snd (EnableFeatures fs names)) n"
proof (induction names arbitrary: fs)
  case Nil
  then show ?case by simp
next
  case (Cons name names)
  from Cons.prems(1) have ok: "fst (EnableFeature fs name) = None"
    by (auto simp del: EnableFeatures.simps(2) simp add: EnableFeatures_step split: if_splits)
  with Cons.prems(1) have rest: "fst (EnableFeatures (snd (EnableFeature fs name)) names) = None"
    by (simp del: EnableFeatures.simps(2) add: EnableFeatures_step)
  show ?case
  proof (cases "n \<in> set names")
    case True
    with rest ok show ?thesis by (simp del: EnableFeatures.simps(2) add: EnableFeatures_step Cons.IH)
  next
    case False
    with Cons.prems(2) have "n = name" by simp
    with ok have "IsEnabled (snd (EnableFeature fs name)) n" by (simp add: EnableFeature_enables)
    then have "IsEnabled (snd (EnableFeatures (snd (EnableFeature fs name)) names)) n"
      by (rule EnableFeatures_keeps)
    with ok show ?thesis by (simp del: EnableFeatures.simps(2) add: EnableFeatures_step)
  qed
qed

lemma EnableFeatures_override:
  "fst (EnableFeatures fs names) = None \<Longrightarrow>
   everythingOn (snd (EnableFeatures fs names)) = (everythingOn fs \<or> ''everything'' \<in> set names)"
proof (induction names arbitrary: fs)
  case Nil
  then show ?case by simp
next
  case (Cons name names)
  from Cons.prems have ok: "fst (EnableFeature fs name) = None"
    by (auto simp del: EnableFeatures.simps(2) simp add: EnableFeatures_step split: if_splits)
  with Cons.prems have rest: "fst (EnableFeatures (snd (EnableFeature fs name)) names) = None"
    by (simp del: EnableFeatures.simps(2) add: EnableFeatures_step)
  from ok Cons.IH [OF rest] show ?case
    by (auto simp del: EnableFeatures.simps(2) simp add: EnableFeatures_step EnableFeature_override)
qed

lemma EnableFeatures_append:
  "fst (EnableFeatures fs pre) = None \<Longrightarrow>
   EnableFeatures fs (pre @ rest) = EnableFeatures (snd (EnableFeatures fs pre)) rest"
proof (induction pre arbitrary: fs)
  case Nil
  then show ?case by simp
next
  case (Cons name pre)
  from Cons.prems have ok: "fst (EnableFeature fs name) = None"
    by (auto simp del: EnableFeatures.simps(2) simp add: EnableFeatures_step split: if_splits)
  with Cons.prems have "fst (EnableFeatures (snd (EnableFeature fs name)) pre) = None"
    by (simp del: EnableFeatures.simps(2) add: EnableFeatures_step)
  from Cons.IH [OF this] ok show ?case by (simp del: EnableFeatures.simps(2) add: EnableFeatures_step)
qed

lemma EnableFeature_invalid:
  "name \<noteq> ''everything'' \<Longrightarrow> name |\<notin>| fmdom (Features fs) \<Longrightarrow>
   EnableFeature fs name = (Some (Err (''feature '' @ name @ '' does not exist'')), fs)"
  by (auto simp: EnableFeature_def split: option.splits)

subsection \<open>What a sequence of calls changes\<close>

lemma do_call_other:
  "name \<notin> set (registered_by c) \<Longrightarrow> name \<notin> set (enabled_by c) \<Longrightarrow>
   fmlookup (Features (do_call fs c)) name = fmlookup (Features fs) name"
  by (cases c) (simp_all add: AddFeature_def EnableFeature_other EnableFeatures_other)

lemma do_call_override_kept:
  "''everything'' \<notin> set (enabled_by c) \<Longrightarrow> everythingOn (do_call fs c) = everythingOn fs"
  by (cases c) (simp_all add: AddFeature_def EnableFeature_override EnableFeatures_override_kept)

lemma do_calls_other:
  "\<forall>c \<in> set cs. name \<notin> set (registered_by c) \<and> name \<notin> set (enabled_by c) \<Longrightarrow>
   fmlookup (Features (do_calls fs cs)) name = fmlookup (Features fs) name"
  unfolding do_calls_def
  by (induction cs arbitrary: fs) (simp_all add: do_call_other)

lemma do_calls_override_kept:
  "\<forall>c \<in> set cs. ''everything'' \<notin> set (enabled_by c) \<Longrightarrow>
   everythingOn (do_calls fs cs) = everythingOn fs"
  unfolding do_calls_def
  by (induction cs arbitrary: fs) (simp_all add: do_call_override_kept)

lemma AddFeature_names_match:
  "names_match fs \<Longrightarrow> names_match (AddFeature fs name description enabled)"
  by (auto simp: AddFeature_def names_match_def)

lemma do_call_names_match: "names_match fs \<Longrightarrow> names_match (do_call fs c)"
  by (cases c)
     (simp_all add: AddFeature_names_match EnableFeature_names_match EnableFeatures_names_match)

lemma do_calls_names_match: "names_match fs \<Longrightarrow> names_match (do_calls fs cs)"
  unfolding do_calls_def
  by (induction cs arbitrary: fs) (simp_all add: do_call_names_match)

section \<open>The query, the invariant and the failed enable\<close>

text \<open>
  Claim C2. \<open>IsEnabled\<close> is the query of the specification: true when the override is set,
  otherwise the stored bit of the entry, and false for a name that was never registered. It
  is a function to \<open>bool\<close> of the set alone, so it has no error result and leaves the set as
  it was. In particular a feature registered with default \<open>d\<close> on a set whose override is
  off answers \<open>d\<close> as long as no later call registers it again, enables it or enables the
  sentinel.
\<close>

theorem IsEnabled_query:
  "IsEnabled fs name
     = isEnabled_spec (everythingOn fs) (map_option Enabled (fmlookup (Features fs) name))
   \<and> (everythingOn fs \<longrightarrow> IsEnabled fs name)
   \<and> (\<not> everythingOn fs \<longrightarrow> fmlookup (Features fs) name = Some f \<longrightarrow>
        IsEnabled fs name = Enabled f)
   \<and> (\<not> everythingOn fs \<longrightarrow> name |\<notin>| fmdom (Features fs) \<longrightarrow> \<not> IsEnabled fs name)
   \<and> (\<not> everythingOn fs \<longrightarrow>
        (\<forall>c \<in> set cs. name \<notin> set (registered_by c) \<and> name \<notin> set (enabled_by c)
                       \<and> ''everything'' \<notin> set (enabled_by c)) \<longrightarrow>
        IsEnabled (do_calls (AddFeature fs name description d) cs) name = d)"
proof -
  have spec: "IsEnabled fs name
     = isEnabled_spec (everythingOn fs) (map_option Enabled (fmlookup (Features fs) name))"
    by (simp add: IsEnabled_def isEnabled_spec_def split: option.splits)
  have on: "everythingOn fs \<longrightarrow> IsEnabled fs name"
    by (simp add: IsEnabled_def)
  have stored: "\<not> everythingOn fs \<longrightarrow> fmlookup (Features fs) name = Some f \<longrightarrow>
        IsEnabled fs name = Enabled f"
    by (simp add: IsEnabled_def)
  have unknown: "\<not> everythingOn fs \<longrightarrow> name |\<notin>| fmdom (Features fs) \<longrightarrow> \<not> IsEnabled fs name"
    by (auto simp: IsEnabled_def split: option.splits)
  have fresh: "\<not> everythingOn fs \<longrightarrow>
        (\<forall>c \<in> set cs. name \<notin> set (registered_by c) \<and> name \<notin> set (enabled_by c)
                       \<and> ''everything'' \<notin> set (enabled_by c)) \<longrightarrow>
        IsEnabled (do_calls (AddFeature fs name description d) cs) name = d"
  proof (intro impI)
    assume off: "\<not> everythingOn fs"
    assume quiet: "\<forall>c \<in> set cs. name \<notin> set (registered_by c) \<and> name \<notin> set (enabled_by c)
                       \<and> ''everything'' \<notin> set (enabled_by c)"
    let ?fs = "AddFeature fs name description d"
    from quiet have "fmlookup (Features (do_calls ?fs cs)) name = fmlookup (Features ?fs) name"
      by (simp add: do_calls_other)
    then have entry: "fmlookup (Features (do_calls ?fs cs)) name
        = Some \<lparr>Name = name, Description = description, Enabled = d\<rparr>"
      by (simp add: AddFeature_def)
    from quiet have "everythingOn (do_calls ?fs cs) = everythingOn ?fs"
      by (simp add: do_calls_override_kept)
    with off have "\<not> everythingOn (do_calls ?fs cs)" by (simp add: AddFeature_def)
    with entry show "IsEnabled (do_calls ?fs cs) name = d" by (simp add: IsEnabled_def)
  qed
  from spec on stored unknown fresh show ?thesis by blast
qed

theorem IsEnabled_query_witness:
  "\<not> IsEnabled two_features ''feature1''
   \<and> \<not> IsEnabled two_features ''non-existent''
   \<and> IsEnabled (do_calls (AddFeature two_features ''enabled-feature'' ''An enabled feature'' True)
        [CallAddFeature ''other'' ''Another'' False, CallEnableFeature ''feature1''])
        ''enabled-feature''
   \<and> \<not> IsEnabled (do_calls (AddFeature two_features ''disabled-feature'' ''A disabled feature'' False)
        [CallAddFeature ''other'' ''Another'' True, CallEnableFeatures [''feature1'', ''other'']])
        ''disabled-feature''"
proof -
  have off: "\<not> everythingOn two_features"
    by (simp add: two_features_def AddFeature_def NewFeatureSet_def)
  have entry: "fmlookup (Features two_features) ''feature1''
      = Some \<lparr>Name = ''feature1'', Description = ''Feature 1'', Enabled = False\<rparr>"
    by (simp add: two_features_def AddFeature_def NewFeatureSet_def)
  have missing: "''non-existent'' |\<notin>| fmdom (Features two_features)"
    by (simp add: two_features_def AddFeature_def NewFeatureSet_def)
  have quiet1: "\<forall>c \<in> set [CallAddFeature ''other'' ''Another'' False, CallEnableFeature ''feature1''].
       ''enabled-feature'' \<notin> set (registered_by c) \<and> ''enabled-feature'' \<notin> set (enabled_by c)
       \<and> ''everything'' \<notin> set (enabled_by c)"
    by simp
  have quiet2: "\<forall>c \<in> set [CallAddFeature ''other'' ''Another'' True,
                           CallEnableFeatures [''feature1'', ''other'']].
       ''disabled-feature'' \<notin> set (registered_by c) \<and> ''disabled-feature'' \<notin> set (enabled_by c)
       \<and> ''everything'' \<notin> set (enabled_by c)"
    by simp
  note registered = IsEnabled_query [of two_features "''feature1''"
      "\<lparr>Name = ''feature1'', Description = ''Feature 1'', Enabled = False\<rparr>" "[]" "[]" False]
  note unregistered = IsEnabled_query [of two_features "''non-existent''"
      "\<lparr>Name = ''feature1'', Description = ''Feature 1'', Enabled = False\<rparr>" "[]" "[]" False]
  note default_on = IsEnabled_query [of two_features "''enabled-feature''"
      "\<lparr>Name = ''feature1'', Description = ''Feature 1'', Enabled = False\<rparr>"
      "[CallAddFeature ''other'' ''Another'' False, CallEnableFeature ''feature1'']"
      "''An enabled feature''" True]
  note default_off = IsEnabled_query [of two_features "''disabled-feature''"
      "\<lparr>Name = ''feature1'', Description = ''Feature 1'', Enabled = False\<rparr>"
      "[CallAddFeature ''other'' ''Another'' True, CallEnableFeatures [''feature1'', ''other'']]"
      "''A disabled feature''" False]
  from registered off entry have a: "\<not> IsEnabled two_features ''feature1''"
    by (simp add: isEnabled_spec_def)
  from unregistered off missing have b: "\<not> IsEnabled two_features ''non-existent''" by blast
  from default_on off quiet1
  have c: "IsEnabled (do_calls (AddFeature two_features ''enabled-feature'' ''An enabled feature'' True)
        [CallAddFeature ''other'' ''Another'' False, CallEnableFeature ''feature1''])
        ''enabled-feature''" by blast
  from default_off off quiet2
  have d: "\<not> IsEnabled (do_calls (AddFeature two_features ''disabled-feature'' ''A disabled feature'' False)
        [CallAddFeature ''other'' ''Another'' True, CallEnableFeatures [''feature1'', ''other'']])
        ''disabled-feature''" by blast
  from a b c d show ?thesis by blast
qed

text \<open>
  Claim C9. Every entry of the map carries the key it is stored under as its \<open>Name\<close>: this
  holds of the set \<open>NewFeatureSet\<close> returns and is kept by \<open>AddFeature\<close>, by \<open>EnableFeature\<close>
  and by \<open>EnableFeatures\<close>, hence by every sequence of calls on a new set.
\<close>

theorem names_match_invariant:
  "names_match NewFeatureSet
   \<and> (names_match fs \<longrightarrow> names_match (AddFeature fs name description enabled))
   \<and> (names_match fs \<longrightarrow> names_match (snd (EnableFeature fs name)))
   \<and> (names_match fs \<longrightarrow> names_match (snd (EnableFeatures fs names)))
   \<and> names_match (do_calls NewFeatureSet cs)"
proof -
  have init: "names_match NewFeatureSet"
    by (simp add: names_match_def NewFeatureSet_def)
  from init have "names_match (do_calls NewFeatureSet cs)" by (rule do_calls_names_match)
  with init show ?thesis
    by (simp add: AddFeature_names_match EnableFeature_names_match EnableFeatures_names_match)
qed

theorem names_match_invariant_witness:
  "names_match two_features
   \<and> names_match (snd (EnableFeature two_features ''feature2''))
   \<and> map_option Name (fmlookup (Features (snd (EnableFeature two_features ''feature2''))) ''feature2'')
       = Some ''feature2''"
proof -
  note first = names_match_invariant [of NewFeatureSet "''feature1''" "''Feature 1''" False "[]" "[]"]
  note second = names_match_invariant [of "AddFeature NewFeatureSet ''feature1'' ''Feature 1'' False"
      "''feature2''" "''Feature 2''" False "[]" "[]"]
  note third = names_match_invariant [of two_features "''feature2''" "''Feature 2''" False "[]" "[]"]
  from first second have inv: "names_match two_features" by (simp add: two_features_def)
  with third have after: "names_match (snd (EnableFeature two_features ''feature2''))" by blast
  have "''feature2'' |\<in>| fmdom (Features (snd (EnableFeature two_features ''feature2'')))"
    by (simp add: EnableFeature_def two_features_def AddFeature_def NewFeatureSet_def)
  with after have "map_option Name
      (fmlookup (Features (snd (EnableFeature two_features ''feature2''))) ''feature2'')
       = Some ''feature2''"
    unfolding names_match_def by blast
  with inv after show ?thesis by blast
qed

text \<open>
  Claim C10. For a name that is neither the sentinel nor a registered key,
  \<open>EnableFeature\<close> returns the error and leaves the whole set, map and override, as it was.
\<close>

theorem EnableFeature_unknown_atomic:
  "name \<noteq> ''everything'' \<Longrightarrow> name |\<notin>| fmdom (Features fs) \<Longrightarrow>
   fst (EnableFeature fs name) = Some (Err (''feature '' @ name @ '' does not exist''))
   \<and> snd (EnableFeature fs name) = fs
   \<and> Features (snd (EnableFeature fs name)) = Features fs
   \<and> everythingOn (snd (EnableFeature fs name)) = everythingOn fs"
  by (simp add: EnableFeature_invalid)

theorem EnableFeature_unknown_atomic_witness:
  "fst (EnableFeature two_features ''non-existent'')
     = Some (Err ''feature non-existent does not exist'')
   \<and> snd (EnableFeature two_features ''non-existent'') = two_features"
proof -
  have a: "''non-existent'' \<noteq> ''everything''" by simp
  have b: "''non-existent'' |\<notin>| fmdom (Features two_features)"
    by (simp add: two_features_def AddFeature_def NewFeatureSet_def)
  from EnableFeature_unknown_atomic [OF a b] show ?thesis by simp
qed

section \<open>The batch enable stops at the first invalid name\<close>

text \<open>
  Claim C3, as stated, fails for a name that occurs both before and after the first invalid
  name: with \<^verbatim>\<open>feature1\<close> registered disabled, the list
  \<^verbatim>\<open>["feature1", "non-existent", "feature1"]\<close> stops at the second name with its error, and
  \<^verbatim>\<open>feature1\<close>, which also occurs after the invalid name, does not keep its prior state: it
  was disabled before the call and is enabled after it.
\<close>

theorem EnableFeatures_repeated_name_counterexample:
  "fst (EnableFeatures two_features [''feature1'', ''non-existent'', ''feature1''])
     = Some (Err ''feature non-existent does not exist'')
   \<and> ''feature1'' \<in> set (drop 2 [''feature1'', ''non-existent'', ''feature1''])
   \<and> \<not> IsEnabled two_features ''feature1''
   \<and> IsEnabled (snd (EnableFeatures two_features [''feature1'', ''non-existent'', ''feature1'']))
        ''feature1''"
  by (simp add: two_features_def AddFeature_def NewFeatureSet_def EnableFeature_def IsEnabled_def)

text \<open>
  Claim C3, amended. \<open>EnableFeatures\<close> applies \<open>EnableFeature\<close> in list order and stops at
  the first invalid (unregistered, non-sentinel) name: the result is that name's error and
  the set is the one left by the valid names before it, whatever follows in the list. Every
  name before the invalid one is enabled, every name that does not occur before it keeps its
  stored entry, and the override is on afterwards exactly if it was on before or the sentinel
  occurs before the invalid name.
\<close>

theorem EnableFeatures_short_circuit:
  assumes valid: "\<forall>n \<in> set pre. n = ''everything'' \<or> n |\<in>| fmdom (Features fs)"
    and sentinel: "bad \<noteq> ''everything''"
    and unknown: "bad |\<notin>| fmdom (Features fs)"
  shows "EnableFeatures fs (pre @ bad # post)
           = (Some (Err (''feature '' @ bad @ '' does not exist'')), snd (EnableFeatures fs pre))
         \<and> fst (EnableFeatures fs pre) = None
         \<and> (\<forall>n \<in> set pre. IsEnabled (snd (EnableFeatures fs (pre @ bad # post))) n)
         \<and> (\<forall>n. n \<notin> set pre \<longrightarrow>
               fmlookup (Features (snd (EnableFeatures fs (pre @ bad # post)))) n
                 = fmlookup (Features fs) n)
         \<and> everythingOn (snd (EnableFeatures fs (pre @ bad # post)))
             = (everythingOn fs \<or> ''everything'' \<in> set pre)"
proof -
  let ?mid = "snd (EnableFeatures fs pre)"
  from valid have ok: "fst (EnableFeatures fs pre) = None" by (rule EnableFeatures_valid)
  from unknown have "bad |\<notin>| fmdom (Features ?mid)" by (simp add: EnableFeatures_dom)
  with sentinel
  have stop: "EnableFeature ?mid bad = (Some (Err (''feature '' @ bad @ '' does not exist'')), ?mid)"
    by (rule EnableFeature_invalid)
  have "EnableFeatures fs (pre @ bad # post) = EnableFeatures ?mid (bad # post)"
    using ok by (rule EnableFeatures_append)
  with stop have whole: "EnableFeatures fs (pre @ bad # post)
      = (Some (Err (''feature '' @ bad @ '' does not exist'')), ?mid)"
    by simp
  have enabled: "\<forall>n \<in> set pre. IsEnabled ?mid n"
    using ok by (simp add: EnableFeatures_enables)
  have kept: "\<forall>n. n \<notin> set pre \<longrightarrow> fmlookup (Features ?mid) n = fmlookup (Features fs) n"
    by (simp add: EnableFeatures_other)
  have override: "everythingOn ?mid = (everythingOn fs \<or> ''everything'' \<in> set pre)"
    using ok by (rule EnableFeatures_override)
  from whole ok enabled kept override show ?thesis by simp
qed

theorem EnableFeatures_short_circuit_witness:
  "EnableFeatures two_features ([''feature1''] @ ''non-existent'' # [''feature2''])
     = (Some (Err ''feature non-existent does not exist''),
        snd (EnableFeatures two_features [''feature1'']))
   \<and> IsEnabled (snd (EnableFeatures two_features ([''feature1''] @ ''non-existent'' # [''feature2''])))
        ''feature1''
   \<and> fmlookup (Features (snd (EnableFeatures two_features
                                 ([''feature1''] @ ''non-existent'' # [''feature2''])))) ''feature2''
       = fmlookup (Features two_features) ''feature2''
   \<and> \<not> everythingOn (snd (EnableFeatures two_features
                             ([''feature1''] @ ''non-existent'' # [''feature2''])))"
proof -
  have valid: "\<forall>n \<in> set [''feature1'']. n = ''everything'' \<or> n |\<in>| fmdom (Features two_features)"
    by (simp add: two_features_def AddFeature_def NewFeatureSet_def)
  have sentinel: "''non-existent'' \<noteq> ''everything''" by simp
  have unknown: "''non-existent'' |\<notin>| fmdom (Features two_features)"
    by (simp add: two_features_def AddFeature_def NewFeatureSet_def)
  have off: "\<not> everythingOn two_features"
    by (simp add: two_features_def AddFeature_def NewFeatureSet_def)
  note run = EnableFeatures_short_circuit [OF valid sentinel unknown, of "[''feature2'']"]
  note run_result = run [THEN conjunct1]
  note run_enabled = run [THEN conjunct2, THEN conjunct2, THEN conjunct1]
  note run_kept = run [THEN conjunct2, THEN conjunct2, THEN conjunct2, THEN conjunct1]
  note run_override = run [THEN conjunct2, THEN conjunct2, THEN conjunct2, THEN conjunct2]
  from run_result
  have whole: "EnableFeatures two_features ([''feature1''] @ ''non-existent'' # [''feature2''])
     = (Some (Err ''feature non-existent does not exist''),
        snd (EnableFeatures two_features [''feature1'']))"
    by (simp del: EnableFeatures.simps)
  from run_enabled
  have first: "IsEnabled (snd (EnableFeatures two_features
       ([''feature1''] @ ''non-existent'' # [''feature2'']))) ''feature1''"
    by (simp del: EnableFeatures.simps)
  from run_kept
  have later: "fmlookup (Features (snd (EnableFeatures two_features
                                 ([''feature1''] @ ''non-existent'' # [''feature2''])))) ''feature2''
       = fmlookup (Features two_features) ''feature2''"
    by (simp del: EnableFeatures.simps)
  from run_override off
  have override: "\<not> everythingOn (snd (EnableFeatures two_features
                             ([''feature1''] @ ''non-existent'' # [''feature2''])))"
    by (simp del: EnableFeatures.simps)
  show ?thesis
    using whole first later override by - (intro conjI, assumption+)
qed

section \<open>The frame of a single enable\<close>

text \<open>
  Claim C6, as stated, fails for the registered name \<^verbatim>\<open>everything\<close>: \<open>AddFeature\<close> accepts
  it as a feature name, and \<open>EnableFeature\<close> on it takes the branch of the sentinel, which
  turns the override on and leaves the stored bit of the entry off.
\<close>

theorem EnableFeature_sentinel_registered_counterexample:
  "\<not> everythingOn sentinel_registered
   \<and> ''everything'' |\<in>| fmdom (Features sentinel_registered)
   \<and> everythingOn (snd (EnableFeature sentinel_registered ''everything''))
   \<and> map_option Enabled
        (fmlookup (Features (snd (EnableFeature sentinel_registered ''everything''))) ''everything'')
       = Some False"
  by (simp add: sentinel_registered_def AddFeature_def NewFeatureSet_def EnableFeature_def)

text \<open>
  Claim C6, amended. For every registered name other than the sentinel \<^verbatim>\<open>everything\<close>,
  \<open>EnableFeature\<close> succeeds and sets only that entry's enabled bit: the entry keeps its name
  and description, every other entry, the set of keys and the override are unchanged, and
  so is the answer of \<open>IsEnabled\<close> for every other name. In the catalog of \<open>initFeatures\<close>,
  enabling \<^verbatim>\<open>code_security\<close> leaves \<^verbatim>\<open>issues\<close> disabled.
\<close>

theorem EnableFeature_frame:
  assumes sentinel: "name \<noteq> ''everything''"
    and registered: "fmlookup (Features fs) name = Some f"
  shows "fst (EnableFeature fs name) = None
         \<and> fmlookup (Features (snd (EnableFeature fs name))) name
             = Some \<lparr>Name = Name f, Description = Description f, Enabled = True\<rparr>
         \<and> (\<forall>other. other \<noteq> name \<longrightarrow>
               fmlookup (Features (snd (EnableFeature fs name))) other
                 = fmlookup (Features fs) other)
         \<and> fmdom (Features (snd (EnableFeature fs name))) = fmdom (Features fs)
         \<and> everythingOn (snd (EnableFeature fs name)) = everythingOn fs
         \<and> (\<forall>other. other \<noteq> name \<longrightarrow>
               IsEnabled (snd (EnableFeature fs name)) other = IsEnabled fs other)
         \<and> \<not> IsEnabled (snd (EnableFeature catalog ''code_security'')) ''issues''"
proof -
  from sentinel registered
  have step: "EnableFeature fs name
      = (None, fs\<lparr>Features := fmupd name (f\<lparr>Enabled := True\<rparr>) (Features fs)\<rparr>)"
    by (simp add: EnableFeature_def)
  have entry: "fmlookup (Features (snd (EnableFeature fs name))) name
             = Some \<lparr>Name = Name f, Description = Description f, Enabled = True\<rparr>"
    using step by simp
  have others: "\<forall>other. other \<noteq> name \<longrightarrow>
               fmlookup (Features (snd (EnableFeature fs name))) other
                 = fmlookup (Features fs) other"
    by (simp add: EnableFeature_other)
  have override: "everythingOn (snd (EnableFeature fs name)) = everythingOn fs"
    using sentinel by (simp add: EnableFeature_override)
  have query: "\<forall>other. other \<noteq> name \<longrightarrow>
               IsEnabled (snd (EnableFeature fs name)) other = IsEnabled fs other"
    using others override by (simp add: IsEnabled_def)
  have example: "\<not> IsEnabled (snd (EnableFeature catalog ''code_security'')) ''issues''"
    by (simp add: catalog_def AddFeature_def NewFeatureSet_def EnableFeature_def IsEnabled_def)
  have ok: "fst (EnableFeature fs name) = None"
    using step by simp
  have same_keys: "fmdom (Features (snd (EnableFeature fs name))) = fmdom (Features fs)"
    by (rule EnableFeature_dom)
  show ?thesis
    using ok entry others same_keys override query example by - (intro conjI, assumption+)
qed

theorem EnableFeature_frame_witness:
  "fst (EnableFeature two_features ''feature1'') = None
   \<and> IsEnabled (snd (EnableFeature two_features ''feature1'')) ''feature1''
   \<and> fmlookup (Features (snd (EnableFeature two_features ''feature1''))) ''feature2''
       = Some \<lparr>Name = ''feature2'', Description = ''Feature 2'', Enabled = False\<rparr>
   \<and> \<not> IsEnabled (snd (EnableFeature two_features ''feature1'')) ''feature2''
   \<and> \<not> everythingOn (snd (EnableFeature two_features ''feature1''))"
proof -
  have sentinel: "''feature1'' \<noteq> ''everything''" by simp
  have registered: "fmlookup (Features two_features) ''feature1''
      = Some \<lparr>Name = ''feature1'', Description = ''Feature 1'', Enabled = False\<rparr>"
    by (simp add: two_features_def AddFeature_def NewFeatureSet_def)
  have second: "fmlookup (Features two_features) ''feature2''
      = Some \<lparr>Name = ''feature2'', Description = ''Feature 2'', Enabled = False\<rparr>"
    by (simp add: two_features_def AddFeature_def NewFeatureSet_def)
  have off: "\<not> everythingOn two_features"
    by (simp add: two_features_def AddFeature_def NewFeatureSet_def)
  have before: "\<not> IsEnabled two_features ''feature2''"
    using off second by (simp add: IsEnabled_def)
  note frame = EnableFeature_frame [OF sentinel registered]
  from frame [THEN conjunct1]
  have ok: "fst (EnableFeature two_features ''feature1'') = None" .
  from frame [THEN conjunct2, THEN conjunct2, THEN conjunct2, THEN conjunct2, THEN conjunct1] off
  have still_off: "\<not> everythingOn (snd (EnableFeature two_features ''feature1''))"
    by simp
  from frame [THEN conjunct2, THEN conjunct1]
  have "fmlookup (Features (snd (EnableFeature two_features ''feature1''))) ''feature1''
      = Some \<lparr>Name = ''feature1'', Description = ''Feature 1'', Enabled = True\<rparr>"
    by simp
  with still_off have on: "IsEnabled (snd (EnableFeature two_features ''feature1'')) ''feature1''"
    by (simp add: IsEnabled_def)
  from frame [THEN conjunct2, THEN conjunct2, THEN conjunct1]
  have "fmlookup (Features (snd (EnableFeature two_features ''feature1''))) ''feature2''
        = fmlookup (Features two_features) ''feature2''"
    by simp
  with second have other: "fmlookup (Features (snd (EnableFeature two_features ''feature1''))) ''feature2''
       = Some \<lparr>Name = ''feature2'', Description = ''Feature 2'', Enabled = False\<rparr>" by simp
  with still_off have other_off: "\<not> IsEnabled (snd (EnableFeature two_features ''feature1'')) ''feature2''"
    by (simp add: IsEnabled_def)
  show ?thesis
    using ok on other other_off still_off by - (intro conjI, assumption+)
qed

end
